theory Spec2Isabelle
  imports Main "HOL-Library.Char_ord" "HOL-Library.List_Lexorder" "HOL-Library.Multiset"
begin

section \<open>Python values and MongoDB records\<close>

text \<open>
  The values a field of a fetched document can hold, as far as \<open>main.py\<close> looks at them:
  \<open>None\<close> (BSON null), \<open>True\<close>/\<open>False\<close>, an integer, a string (its UTF-8 bytes, so that
  equality and the lexicographic order of \<open>char list\<close> are those of Python's \<open>str\<close>), and
  \<open>PArray\<close>, a BSON array or embedded document (a Python \<open>list\<close> or \<open>dict\<close>): the program
  never looks inside one, it is never \<open>True\<close>, never equal to a string, and it cannot be hashed.
  Floats, dates and object ids are outside the model.
\<close>

datatype pyval = PNone | PBool bool | PInt int | PStr string | PArray

text \<open>A record is a Python \<open>dict\<close> with string keys.\<close>

type_synonym py_record = "string \<rightharpoonup> pyval"

datatype error = TypeError

text \<open>\<open>r.get(k, d)\<close>; \<open>r.get(k)\<close> is \<open>get r k PNone\<close>.\<close>

definition get :: "py_record \<Rightarrow> string \<Rightarrow> pyval \<Rightarrow> pyval" where
  "get r k d = (case r k of None \<Rightarrow> d | Some v \<Rightarrow> v)"

text \<open>\<open>v is True\<close> and \<open>v is False\<close>: identity with the singleton; \<open>1 is True\<close> is false.\<close>

definition is_True :: "pyval \<Rightarrow> bool" where
  "is_True v = (v = PBool True)"

definition is_False :: "pyval \<Rightarrow> bool" where
  "is_False v = (v = PBool False)"

text \<open>\<open>hash(v)\<close> raises \<open>TypeError\<close> on a list or a dict.\<close>

fun hashable :: "pyval \<Rightarrow> bool" where
  "hashable PArray = False"
| "hashable v = True"

text \<open>
  \<open>a == b\<close> between two dictionary keys: \<open>True == 1\<close> and \<open>False == 0\<close> hold (and the
  hashes agree), every other pair of different types is unequal. Keys are hashable, so
  \<open>PArray\<close> never reaches it.
\<close>

fun key_eq :: "pyval \<Rightarrow> pyval \<Rightarrow> bool" where
  "key_eq (PBool a) (PInt i) = (i = (if a then 1 else 0))"
| "key_eq (PInt i) (PBool a) = (i = (if a then 1 else 0))"
| "key_eq a b = (a = b)"

text \<open>\<open>sum(1 for r in records if p(r))\<close>\<close>

definition count_if :: "('a \<Rightarrow> bool) \<Rightarrow> 'a list \<Rightarrow> int" where
  "count_if p records = sum_list (map (\<lambda>r. 1) (filter p records))"

section \<open>The analysis result\<close>

text \<open>The dictionary the \<open>defaultdict\<close> factory of \<open>analyze_records\<close> builds, with its keys as fields.\<close>

record user_bucket =
  total :: int
  success :: int
  failed :: int
  lusha_calls :: int
  lusha_phone_found :: int
  apollo_calls :: int
  apollo_phone_found :: int
  phone_found :: int

record overall_stats =
  total_calls :: int
  successful_calls :: int
  failed_calls :: int
  apollo_calls :: int
  lusha_calls :: int
  phone_found_total :: int
  phone_not_found_total :: int
  apollo_phone_found_total :: int
  lusha_phone_found_total :: int

text \<open>
  \<open>user_stats\<close> is a Python \<open>dict\<close>: its items in insertion order, no two keys equal
  under \<open>==\<close>.
\<close>

type_synonym user_dict = "(pyval \<times> user_bucket) list"

record analysis =
  overall :: overall_stats
  user_stats :: user_dict

definition new_bucket :: user_bucket where
  "new_bucket = \<lparr>total = 0, success = 0, failed = 0, user_bucket.lusha_calls = 0,
     lusha_phone_found = 0, user_bucket.apollo_calls = 0, apollo_phone_found = 0,
     phone_found = 0\<rparr>"

section \<open>analyze_records\<close>

text \<open>
  \<open>stats = user_stats[user_name]\<close> followed by the in-place updates \<open>f\<close> of \<open>stats\<close>: the
  bucket stored under a key equal to \<open>user_name\<close> is updated where it stands (the stored key
  stays), and a missing key is appended with the factory's bucket.
\<close>

fun update_bucket :: "pyval \<Rightarrow> (user_bucket \<Rightarrow> user_bucket) \<Rightarrow> user_dict \<Rightarrow> user_dict" where
  "update_bucket user_name f [] = [(user_name, f new_bucket)]"
| "update_bucket user_name f ((k, stats) # d) =
     (if key_eq k user_name then (k, f stats) # d
      else (k, stats) # update_bucket user_name f d)"

text \<open>The body of the loop over the records, from \<open>stats['total'] += 1\<close> on.\<close>

definition count_record :: "py_record \<Rightarrow> user_bucket \<Rightarrow> user_bucket" where
  "count_record record stats0 =
     (let stats1 = stats0\<lparr>total := total stats0 + 1\<rparr>;
          is_success = is_True (get record ''lusha_api_success'' PNone);
          found = is_True (get record ''phone_found'' PNone);
          source = get record ''enrichment_source'' PNone;
          stats2 = (if is_success then stats1\<lparr>success := success stats1 + 1\<rparr>
                    else stats1\<lparr>failed := failed stats1 + 1\<rparr>);
          stats3 = (if found
                    then stats2\<lparr>phone_found := user_bucket.phone_found stats2 + 1\<rparr>
                    else stats2)
      in if source = PStr ''APOLLO''
         then (let stats4 = stats3\<lparr>user_bucket.apollo_calls := user_bucket.apollo_calls stats3 + 1\<rparr>
               in if found
                  then stats4\<lparr>apollo_phone_found := apollo_phone_found stats4 + 1\<rparr>
                  else stats4)
         else (let stats4 = stats3\<lparr>user_bucket.lusha_calls := user_bucket.lusha_calls stats3 + 1\<rparr>
               in if found
                  then stats4\<lparr>lusha_phone_found := lusha_phone_found stats4 + 1\<rparr>
                  else stats4))"

text \<open>
  The loop \<open>for record in records\<close>, the dictionary passed along. Indexing the \<open>defaultdict\<close>
  with an unhashable \<open>user_name\<close> raises \<open>TypeError\<close>, which nothing catches.
\<close>

fun user_loop :: "py_record list \<Rightarrow> user_dict \<Rightarrow> error + user_dict" where
  "user_loop [] d = Inr d"
| "user_loop (record # records) d =
     (let user_name = get record ''user_name'' (PStr ''Unknown'')
      in if hashable user_name
         then user_loop records (update_bucket user_name (count_record record) d)
         else Inl TypeError)"

definition analyze_records :: "py_record list \<Rightarrow> error + analysis" where
  "analyze_records records =
     (let total_calls = int (length records);
          successful_calls = count_if (\<lambda>r. is_True (get r ''lusha_api_success'' PNone)) records;
          failed_calls = count_if (\<lambda>r. is_False (get r ''lusha_api_success'' PNone)) records;
          apollo_calls = count_if (\<lambda>r. get r ''enrichment_source'' PNone = PStr ''APOLLO'') records;
          lusha_calls = total_calls - apollo_calls;
          phone_found_total = count_if (\<lambda>r. is_True (get r ''phone_found'' PNone)) records;
          phone_not_found_total = count_if (\<lambda>r. is_False (get r ''phone_found'' PNone)) records;
          apollo_phone_found_total =
            count_if (\<lambda>r. is_True (get r ''phone_found'' PNone)
                         \<and> get r ''enrichment_source'' PNone = PStr ''APOLLO'') records;
          lusha_phone_found_total =
            count_if (\<lambda>r. is_True (get r ''phone_found'' PNone)
                         \<and> get r ''enrichment_source'' PNone \<noteq> PStr ''APOLLO'') records
      in case user_loop records [] of
           Inl e \<Rightarrow> Inl e
         | Inr d \<Rightarrow>
             Inr \<lparr>overall =
                    \<lparr>total_calls = total_calls,
                     successful_calls = successful_calls,
                     failed_calls = failed_calls,
                     apollo_calls = apollo_calls,
                     lusha_calls = lusha_calls,
                     phone_found_total = phone_found_total,
                     phone_not_found_total = phone_not_found_total,
                     apollo_phone_found_total = apollo_phone_found_total,
                     lusha_phone_found_total = lusha_phone_found_total\<rparr>,
                  user_stats = d\<rparr>)"

text \<open>Reading the result: \<open>user_stats.get(k)\<close>, and the sum of one counter over all buckets.\<close>

fun bucket_of :: "user_dict \<Rightarrow> pyval \<Rightarrow> user_bucket option" where
  "bucket_of [] user_name = None"
| "bucket_of ((k, stats) # d) user_name =
     (if key_eq k user_name then Some stats else bucket_of d user_name)"

definition user_sum :: "(user_bucket \<Rightarrow> int) \<Rightarrow> user_dict \<Rightarrow> int" where
  "user_sum f d = sum_list (map (\<lambda>kv. f (snd kv)) d)"

section \<open>generate_csv\<close>

text \<open>
  A row is the list handed to \<open>writer.writerow\<close>; a report file is the list of its rows, in
  the order written. How \<open>csv.writer\<close> quotes and prints a cell is not modelled.
\<close>

type_synonym csv_row = "pyval list"

text \<open>
  \<open>a < b\<close> on two keys: strings compare lexicographically by code point, \<open>bool\<close> and \<open>int\<close>
  compare as numbers, and every other pair (\<open>None\<close> with anything, a string with a number)
  raises \<open>TypeError\<close>.
\<close>

fun num_of :: "pyval \<Rightarrow> int option" where
  "num_of (PBool b) = Some (if b then 1 else 0)"
| "num_of (PInt i) = Some i"
| "num_of v = None"

fun py_less :: "pyval \<Rightarrow> pyval \<Rightarrow> error + bool" where
  "py_less (PStr a) (PStr b) = Inr (a < b)"
| "py_less a b =
     (case (num_of a, num_of b) of
        (Some i, Some j) \<Rightarrow> Inr (i < j)
      | _ \<Rightarrow> Inl TypeError)"

text \<open>
  \<open>(k1, s1) < (k2, s2)\<close> on two items of \<open>user_stats.items()\<close>: tuples compare at the first
  component where they differ. Equal keys would send the comparison on to the two \<open>dict\<close>s,
  which are unordered (\<open>TypeError\<close>) unless equal.
\<close>

definition item_less :: "pyval \<times> user_bucket \<Rightarrow> pyval \<times> user_bucket \<Rightarrow> error + bool" where
  "item_less x y =
     (if key_eq (fst x) (fst y)
      then (if snd x = snd y then Inr False else Inl TypeError)
      else py_less (fst x) (fst y))"

text \<open>
  \<open>sorted(user_stats.items())\<close>, as a stable insertion sort over \<open>item_less\<close>: on items whose
  comparisons all succeed every stable sort returns this list, and a comparison that raises
  ends the sort with its \<open>TypeError\<close>.
\<close>

fun insert_item :: "pyval \<times> user_bucket \<Rightarrow> user_dict \<Rightarrow> error + user_dict" where
  "insert_item x [] = Inr [x]"
| "insert_item x (y # ys) =
     (case item_less y x of
        Inl e \<Rightarrow> Inl e
      | Inr True \<Rightarrow> (case insert_item x ys of Inl e \<Rightarrow> Inl e | Inr zs \<Rightarrow> Inr (y # zs))
      | Inr False \<Rightarrow> Inr (x # y # ys))"

fun sorted_items :: "user_dict \<Rightarrow> error + user_dict" where
  "sorted_items [] = Inr []"
| "sorted_items (x # xs) =
     (case sorted_items xs of Inl e \<Rightarrow> Inl e | Inr ys \<Rightarrow> insert_item x ys)"

text \<open>The rows written before the loop over the users.\<close>

definition overall_rows :: "overall_stats \<Rightarrow> csv_row list" where
  "overall_rows ov =
     [[PStr ''OVERALL SUMMARY''],
      [PStr ''Metric'', PStr ''Value''],
      [PStr ''Total API Calls'', PInt (total_calls ov)],
      [PStr ''Successful Calls'', PInt (successful_calls ov)],
      [PStr ''Failed Calls'', PInt (failed_calls ov)],
      [PStr ''Apollo Calls'', PInt (apollo_calls ov)],
      [PStr ''Lusha Calls'', PInt (lusha_calls ov)],
      [PStr ''Phone Found Total'', PInt (phone_found_total ov)],
      [PStr ''Apollo Phone Found'', PInt (apollo_phone_found_total ov)],
      [PStr ''Lusha Phone Found'', PInt (lusha_phone_found_total ov)],
      [PStr ''Phone Not Found'', PInt (phone_not_found_total ov)],
      []]"

definition user_header_rows :: "csv_row list" where
  "user_header_rows =
     [[PStr ''USER-WISE PERFORMANCE''],
      [PStr ''User'', PStr ''Total'', PStr ''Success'', PStr ''Failed'', PStr ''Lusha'',
       PStr ''Lusha Ph'', PStr ''Apollo'', PStr ''Apollo Ph'', PStr ''Total Ph'']]"

definition user_row :: "pyval \<times> user_bucket \<Rightarrow> csv_row" where
  "user_row item =
     (let user_name = fst item; stats = snd item
      in [user_name,
          PInt (total stats),
          PInt (success stats),
          PInt (failed stats),
          PInt (user_bucket.lusha_calls stats),
          PInt (lusha_phone_found stats),
          PInt (user_bucket.apollo_calls stats),
          PInt (apollo_phone_found stats),
          PInt (user_bucket.phone_found stats)])"

section \<open>The world of one run\<close>

text \<open>
  What the module reads from the environment when it is loaded, and what the outside
  answers during the run: \<open>mongo_find\<close> is \<open>None\<close> when \<open>MongoClient\<close> or \<open>server_info\<close>
  raises, and otherwise the list \<open>collection.find(query)\<close> yields for the query of
  \<open>fetch_last_24_hours_records\<close>; \<open>smtp_ok\<close> says whether the SMTP session (connect, STARTTLS,
  login, send) goes through; \<open>timestamp\<close> and \<open>subject_time\<close> are the two
  \<open>datetime.now().strftime\<close> strings.
\<close>

record env =
  MONGO_URI :: "string option"
  DB_NAME :: "string option"
  COLLECTION_NAME :: "string option"
  SMTP_SERVER :: "string option"
  SMTP_PORT :: int
  SMTP_PASSWORD :: "string option"
  DEFAULT_FROM_EMAIL :: "string option"
  RECIPIENT_EMAIL :: "string option"
  mongo_find :: "py_record list option"
  smtp_ok :: bool
  timestamp :: string
  subject_time :: string

text \<open>
  A message handed to \<open>smtplib\<close>. The body is the fixed template of \<open>send_email_with_csv\<close>
  filled with the counts of \<open>summary\<close>.
\<close>

record email =
  msg_from :: "string option"
  msg_to :: "string option"
  subject :: string
  summary :: overall_stats
  attachment :: "(string \<times> csv_row list) option"

text \<open>
  The effects of a run: the files in the working directory, the lines printed, the SMTP
  connections opened (one entry per \<open>smtplib.SMTP(...)\<close>, with the message it was opened
  for) and the messages the server accepted.
\<close>

record world =
  files :: "string \<rightharpoonup> csv_row list"
  stdout :: "string list"
  smtp_connections :: "email list"
  delivered :: "email list"

definition print :: "string \<Rightarrow> world \<Rightarrow> world" where
  "print line w = w\<lparr>stdout := stdout w @ [line]\<rparr>"

text \<open>Truth value of a configuration string: \<open>None\<close> and \<open>''\<close> are false.\<close>

definition truthy :: "string option \<Rightarrow> bool" where
  "truthy v = (case v of None \<Rightarrow> False | Some s \<Rightarrow> s \<noteq> [])"

text \<open>
  \<open>generate_csv\<close>: \<open>open(filename, 'w')\<close> truncates the file, the rows are written in order,
  and leaving the \<open>with\<close> block closes the file, also when \<open>sorted\<close> raises: then the file
  holds the rows written so far and the \<open>TypeError\<close> leaves the function.
\<close>

definition generate_csv :: "env \<Rightarrow> analysis \<Rightarrow> world \<Rightarrow> (error + string) \<times> world" where
  "generate_csv e analysis w =
     (let filename = ''api_performance_report_'' @ timestamp e @ ''.csv'';
          head_rows = overall_rows (overall analysis) @ user_header_rows
      in case sorted_items (user_stats analysis) of
           Inl err \<Rightarrow> (Inl err, w\<lparr>files := (files w)(filename \<mapsto> head_rows)\<rparr>)
         | Inr items \<Rightarrow>
             (Inr filename,
              w\<lparr>files := (files w)(filename \<mapsto> head_rows @ map user_row items)\<rparr>))"

section \<open>Sending the report\<close>

text \<open>
  \<open>EmailService.send_email\<close> as \<open>send_email_with_csv\<close> calls it (no \<open>from_email\<close>, CC or
  BCC, plain text): the connection is opened inside the \<open>try\<close>, and any exception of the
  session is printed and turned into \<open>False\<close>. The text of a caught exception is not
  modelled: the printed line ends in three dots where Python prints it.
\<close>

definition send_email ::
  "env \<Rightarrow> string option \<Rightarrow> string \<Rightarrow> overall_stats \<Rightarrow> csv_row list \<Rightarrow> string \<Rightarrow> world \<Rightarrow> bool \<times> world" where
  "send_email e to_email subj body att filename w =
     (let msg = \<lparr>msg_from = DEFAULT_FROM_EMAIL e, msg_to = to_email, subject = subj,
                 summary = body,
                 attachment = (if att \<noteq> [] \<and> filename \<noteq> [] then Some (filename, att) else None)\<rparr>;
          w1 = w\<lparr>smtp_connections := smtp_connections w @ [msg]\<rparr>
      in if smtp_ok e then (True, w1\<lparr>delivered := delivered w1 @ [msg]\<rparr>)
         else (False, print ''Error sending email: ...'' w1))"

definition send_email_with_csv :: "env \<Rightarrow> string \<Rightarrow> analysis \<Rightarrow> world \<Rightarrow> bool \<times> world" where
  "send_email_with_csv e csv_filename analysis w =
     (if \<not> (truthy (SMTP_PASSWORD e) \<and> truthy (DEFAULT_FROM_EMAIL e) \<and> truthy (RECIPIENT_EMAIL e))
      then (False,
            print ''Required: SMTP_PASSWORD, DEFAULT_FROM_EMAIL, RECIPIENT_EMAIL''
              (print ''Error: Missing email configuration in .env file'' w))
      else (case files w csv_filename of
              None \<Rightarrow> (False, print ''Error sending email: ...'' w)
            | Some csv_data \<Rightarrow>
                send_email e (RECIPIENT_EMAIL e)
                  (''API Performance Report - '' @ subject_time e)
                  (overall analysis) csv_data csv_filename w))"

section \<open>main\<close>

text \<open>A collection handle stands for the list its \<open>find\<close> yields.\<close>

definition connect_to_mongodb :: "env \<Rightarrow> world \<Rightarrow> py_record list option \<times> world" where
  "connect_to_mongodb e w =
     (if \<not> truthy (MONGO_URI e) \<or> \<not> truthy (DB_NAME e) \<or> \<not> truthy (COLLECTION_NAME e)
      then (None, print ''Error: Missing configuration in .env file'' w)
      else (case mongo_find e of
              None \<Rightarrow> (None, print ''Error connecting to MongoDB: ...'' w)
            | Some collection \<Rightarrow> (Some collection, w)))"

definition fetch_last_24_hours_records :: "py_record list \<Rightarrow> py_record list" where
  "fetch_last_24_hours_records collection = collection"

text \<open>
  \<open>main\<close> returns \<open>None\<close> when it returns, and the exception when one leaves it; the world
  is the one it leaves behind either way.
\<close>

definition main :: "env \<Rightarrow> world \<Rightarrow> error option \<times> world" where
  "main e w =
     (case connect_to_mongodb e w of
        (None, w1) \<Rightarrow> (None, w1)
      | (Some collection, w1) \<Rightarrow>
          (let records = fetch_last_24_hours_records collection
           in if length records = 0 then (None, w1)
              else (case analyze_records records of
                      Inl err \<Rightarrow> (Some err, w1)
                    | Inr analysis \<Rightarrow>
                        (case generate_csv e analysis w1 of
                           (Inl err, w2) \<Rightarrow> (Some err, w2)
                         | (Inr csv_filename, w2) \<Rightarrow>
                             (None, snd (send_email_with_csv e csv_filename analysis w2))))))"

section \<open>Notions used to state the properties\<close>

text \<open>One counter of one user: \<open>user_stats[user_name][f]\<close>, and \<open>0\<close> for a user without a bucket.\<close>

definition counter :: "(user_bucket \<Rightarrow> int) \<Rightarrow> user_dict \<Rightarrow> pyval \<Rightarrow> int" where
  "counter f d user_name = (case bucket_of d user_name of None \<Rightarrow> 0 | Some stats \<Rightarrow> f stats)"

text \<open>The two sums every bucket keeps.\<close>

definition bucket_ok :: "user_bucket \<Rightarrow> bool" where
  "bucket_ok b =
     (success b + failed b = total b
      \<and> user_bucket.lusha_calls b + user_bucket.apollo_calls b = total b)"

text \<open>The item of a user whose name is the string \<open>fst nb\<close>.\<close>

definition tag :: "string \<times> user_bucket \<Rightarrow> pyval \<times> user_bucket" where
  "tag nb = (PStr (fst nb), snd nb)"

text \<open>
  Scenario B of the specification: alice (success, phone found, source LUSHA), bob (failure,
  no phone, source APOLLO) and a document with none of the fields; and the analysis
  \<open>analyze_records\<close> returns for it (lemma \<open>scenario_B_eval\<close>).
\<close>

definition scenario_B :: "py_record list" where
  "scenario_B =
     [[''user_name'' \<mapsto> PStr ''alice'', ''lusha_api_success'' \<mapsto> PBool True,
       ''phone_found'' \<mapsto> PBool True, ''enrichment_source'' \<mapsto> PStr ''LUSHA''],
      [''user_name'' \<mapsto> PStr ''bob'', ''lusha_api_success'' \<mapsto> PBool False,
       ''phone_found'' \<mapsto> PBool False, ''enrichment_source'' \<mapsto> PStr ''APOLLO''],
      Map.empty]"

definition scenario_B_analysis :: analysis where
  "scenario_B_analysis =
     \<lparr>overall =
        \<lparr>total_calls = 3, successful_calls = 1, failed_calls = 1, apollo_calls = 1,
         lusha_calls = 2, phone_found_total = 1, phone_not_found_total = 1,
         apollo_phone_found_total = 0, lusha_phone_found_total = 1\<rparr>,
      user_stats =
        [(PStr ''alice'',
          \<lparr>total = 1, success = 1, failed = 0, user_bucket.lusha_calls = 1,
           lusha_phone_found = 1, user_bucket.apollo_calls = 0, apollo_phone_found = 0,
           phone_found = 1\<rparr>),
         (PStr ''bob'',
          \<lparr>total = 1, success = 0, failed = 1, user_bucket.lusha_calls = 0,
           lusha_phone_found = 0, user_bucket.apollo_calls = 1, apollo_phone_found = 0,
           phone_found = 0\<rparr>),
         (PStr ''Unknown'',
          \<lparr>total = 1, success = 0, failed = 1, user_bucket.lusha_calls = 1,
           lusha_phone_found = 0, user_bucket.apollo_calls = 0, apollo_phone_found = 0,
           phone_found = 0\<rparr>)]\<rparr>"

text \<open>
  A fully configured environment whose query finds nothing, and the world before a run.
\<close>

definition example_env :: env where
  "example_env =
     \<lparr>MONGO_URI = Some ''mongodb://localhost:27017'', DB_NAME = Some ''crm'',
      COLLECTION_NAME = Some ''enrichment_logs'', SMTP_SERVER = Some ''smtp.example.com'',
      SMTP_PORT = 587, SMTP_PASSWORD = Some ''secret'',
      DEFAULT_FROM_EMAIL = Some ''reports@example.com'',
      RECIPIENT_EMAIL = Some ''team@example.com'', mongo_find = Some [], smtp_ok = True,
      timestamp = ''20260101_090000'', subject_time = ''2026-01-01 09:00''\<rparr>"

definition empty_world :: world where
  "empty_world = \<lparr>files = Map.empty, stdout = [], smtp_connections = [], delivered = []\<rparr>"

section \<open>Counting\<close>

lemma count_if_Nil: "count_if p [] = 0"
  by (simp add: count_if_def)

lemma count_if_Cons: "count_if p (r # rs) = (if p r then 1 else 0) + count_if p rs"
  by (simp add: count_if_def)

lemma count_if_length: "count_if p rs = int (length (filter p rs))"
  by (induction rs) (simp_all add: count_if_Nil count_if_Cons)

lemma count_if_split: "count_if p rs + count_if (\<lambda>r. \<not> p r) rs = int (length rs)"
  by (induction rs) (simp_all add: count_if_Nil count_if_Cons)

lemma count_if_disjoint_le:
  assumes "\<And>r. \<not> (p r \<and> q r)"
  shows "count_if p rs + count_if q rs \<le> int (length rs)"
  using assms by (induction rs) (auto simp add: count_if_Nil count_if_Cons)

lemma count_if_disjoint_eq:
  assumes "\<And>r. \<not> (p r \<and> q r)"
  shows "count_if p rs + count_if q rs = int (length rs) \<longleftrightarrow> (\<forall>r \<in> set rs. p r \<or> q r)"
proof (induction rs)
  case Nil
  show ?case by (simp add: count_if_Nil)
next
  case (Cons r rs)
  have le: "count_if p rs + count_if q rs \<le> int (length rs)"
    by (rule count_if_disjoint_le [OF assms])
  show ?case using Cons.IH le assms [of r]
    by (auto simp add: count_if_Cons)
qed

section \<open>Reading a record\<close>

lemma is_True_get: "is_True (get r k PNone) \<longleftrightarrow> r k = Some (PBool True)"
  by (simp add: is_True_def get_def split: option.splits)

lemma is_False_get: "is_False (get r k PNone) \<longleftrightarrow> r k = Some (PBool False)"
  by (simp add: is_False_def get_def split: option.splits)

lemma get_eq_PStr: "get r k PNone = PStr s \<longleftrightarrow> r k = Some (PStr s)"
  by (simp add: get_def split: option.splits)

lemma user_name_is_None: "get r ''user_name'' (PStr ''Unknown'') = PNone \<longleftrightarrow> r ''user_name'' = Some PNone"
  by (simp add: get_def split: option.splits)

lemma user_name_is_Unknown:
  "get r ''user_name'' (PStr ''Unknown'') = PStr ''Unknown''
     \<longleftrightarrow> r ''user_name'' = None \<or> r ''user_name'' = Some (PStr ''Unknown'')"
  by (simp add: get_def split: option.splits)

section \<open>What one record adds to a bucket\<close>

lemma count_record_total: "total (count_record r b) = total b + (if True then 1 else 0)"
  by (simp add: count_record_def Let_def)

lemma count_record_success:
  "success (count_record r b) = success b + (if is_True (get r ''lusha_api_success'' PNone) then 1 else 0)"
  by (simp add: count_record_def Let_def)

lemma count_record_failed:
  "failed (count_record r b) = failed b + (if \<not> is_True (get r ''lusha_api_success'' PNone) then 1 else 0)"
  by (simp add: count_record_def Let_def)

lemma count_record_phone_found:
  "user_bucket.phone_found (count_record r b) =
     user_bucket.phone_found b + (if is_True (get r ''phone_found'' PNone) then 1 else 0)"
  by (simp add: count_record_def Let_def)

lemma count_record_apollo_calls:
  "user_bucket.apollo_calls (count_record r b) =
     user_bucket.apollo_calls b + (if get r ''enrichment_source'' PNone = PStr ''APOLLO'' then 1 else 0)"
  by (simp add: count_record_def Let_def)

lemma count_record_lusha_calls:
  "user_bucket.lusha_calls (count_record r b) =
     user_bucket.lusha_calls b + (if get r ''enrichment_source'' PNone \<noteq> PStr ''APOLLO'' then 1 else 0)"
  by (simp add: count_record_def Let_def)

lemma count_record_apollo_phone_found:
  "apollo_phone_found (count_record r b) =
     apollo_phone_found b +
       (if is_True (get r ''phone_found'' PNone) \<and> get r ''enrichment_source'' PNone = PStr ''APOLLO''
        then 1 else 0)"
  by (simp add: count_record_def Let_def)

lemma count_record_lusha_phone_found:
  "lusha_phone_found (count_record r b) =
     lusha_phone_found b +
       (if is_True (get r ''phone_found'' PNone) \<and> get r ''enrichment_source'' PNone \<noteq> PStr ''APOLLO''
        then 1 else 0)"
  by (simp add: count_record_def Let_def)

section \<open>The result of analyze_records\<close>

lemma analyze_records_Inr:
  assumes "analyze_records records = Inr a"
  shows "user_loop records [] = Inr (user_stats a)"
    and "total_calls (overall a) = int (length records)"
    and "successful_calls (overall a) = count_if (\<lambda>r. is_True (get r ''lusha_api_success'' PNone)) records"
    and "failed_calls (overall a) = count_if (\<lambda>r. is_False (get r ''lusha_api_success'' PNone)) records"
    and "apollo_calls (overall a) = count_if (\<lambda>r. get r ''enrichment_source'' PNone = PStr ''APOLLO'') records"
    and "lusha_calls (overall a) = total_calls (overall a) - apollo_calls (overall a)"
    and "phone_found_total (overall a) = count_if (\<lambda>r. is_True (get r ''phone_found'' PNone)) records"
    and "phone_not_found_total (overall a) = count_if (\<lambda>r. is_False (get r ''phone_found'' PNone)) records"
    and "apollo_phone_found_total (overall a) =
           count_if (\<lambda>r. is_True (get r ''phone_found'' PNone)
                        \<and> get r ''enrichment_source'' PNone = PStr ''APOLLO'') records"
    and "lusha_phone_found_total (overall a) =
           count_if (\<lambda>r. is_True (get r ''phone_found'' PNone)
                        \<and> get r ''enrichment_source'' PNone \<noteq> PStr ''APOLLO'') records"
  using assms by (auto simp add: analyze_records_def Let_def split: sum.splits)

text \<open>
  \<open>analyze_records\<close> returns a result exactly when every \<open>user_name\<close> can be hashed.
\<close>

lemma user_loop_total:
  "\<forall>r \<in> set rs. hashable (get r ''user_name'' (PStr ''Unknown'')) \<Longrightarrow> \<exists>d'. user_loop rs d = Inr d'"
  by (induction rs arbitrary: d) (simp_all add: Let_def)

lemma user_loop_Inl: "user_loop rs d = Inl err \<Longrightarrow> \<exists>r \<in> set rs. \<not> hashable (get r ''user_name'' (PStr ''Unknown''))"
  by (induction rs arbitrary: d) (auto simp add: Let_def split: if_splits)

lemma analyze_records_returns:
  "(\<exists>a. analyze_records records = Inr a)
     \<longleftrightarrow> (\<forall>r \<in> set records. hashable (get r ''user_name'' (PStr ''Unknown'')))"
proof
  assume "\<exists>a. analyze_records records = Inr a"
  then obtain d where run: "user_loop records [] = Inr d"
    by (auto simp add: analyze_records_def Let_def split: sum.splits)
  show "\<forall>r \<in> set records. hashable (get r ''user_name'' (PStr ''Unknown''))"
  proof (rule ccontr)
    assume "\<not> (\<forall>r \<in> set records. hashable (get r ''user_name'' (PStr ''Unknown'')))"
    then obtain r where r: "r \<in> set records" "\<not> hashable (get r ''user_name'' (PStr ''Unknown''))"
      by blast
    have "\<And>d. user_loop records d \<noteq> Inr d'" for d'
      using r by (induction records) (auto simp add: Let_def)
    with run show False by blast
  qed
next
  assume "\<forall>r \<in> set records. hashable (get r ''user_name'' (PStr ''Unknown''))"
  then obtain d where "user_loop records [] = Inr d"
    using user_loop_total by blast
  then show "\<exists>a. analyze_records records = Inr a"
    by (simp add: analyze_records_def Let_def)
qed

lemmas eval_simps = analyze_records_def count_if_def get_def is_True_def is_False_def
  count_record_def new_bucket_def Let_def user_sum_def

lemma scenario_B_eval: "analyze_records scenario_B = Inr scenario_B_analysis"
  by (simp add: scenario_B_def scenario_B_analysis_def eval_simps)

section \<open>Sums over the buckets\<close>

lemma user_sum_Nil: "user_sum f [] = 0"
  by (simp add: user_sum_def)

lemma user_sum_Cons: "user_sum f ((k, b) # d) = f b + user_sum f d"
  by (simp add: user_sum_def)

lemma user_sum_update_bucket:
  assumes step: "\<And>b. f (g b) = f b + c" and zero: "f new_bucket = 0"
  shows "user_sum f (update_bucket k g d) = user_sum f d + c"
proof (induction d)
  case Nil
  show ?case by (simp add: user_sum_Nil user_sum_Cons step zero)
next
  case (Cons kb d)
  obtain k' b where kb: "kb = (k', b)" by (cases kb)
  show ?case using Cons.IH by (simp add: kb user_sum_Cons step)
qed

lemma user_loop_sum:
  assumes step: "\<And>r b. f (count_record r b) = f b + (if p r then 1 else 0)"
    and zero: "f new_bucket = 0"
  shows "user_loop rs d = Inr d' \<Longrightarrow> user_sum f d' = user_sum f d + count_if p rs"
proof (induction rs arbitrary: d)
  case Nil
  then show ?case by (simp add: count_if_Nil)
next
  case (Cons r rs)
  let ?u = "get r ''user_name'' (PStr ''Unknown'')"
  from Cons.prems have h: "hashable ?u"
    and run: "user_loop rs (update_bucket ?u (count_record r) d) = Inr d'"
    by (simp_all add: Let_def split: if_splits)
  have "user_sum f d' = user_sum f (update_bucket ?u (count_record r) d) + count_if p rs"
    by (rule Cons.IH [OF run])
  also have "user_sum f (update_bucket ?u (count_record r) d) = user_sum f d + (if p r then 1 else 0)"
    by (rule user_sum_update_bucket [OF step zero])
  finally show ?case by (simp add: count_if_Cons)
qed

lemma user_sums:
  assumes res: "analyze_records records = Inr a"
  shows "user_sum total (user_stats a) = total_calls (overall a)"
    and "user_sum success (user_stats a) = successful_calls (overall a)"
    and "user_sum user_bucket.lusha_calls (user_stats a) = lusha_calls (overall a)"
    and "user_sum user_bucket.apollo_calls (user_stats a) = apollo_calls (overall a)"
    and "user_sum user_bucket.phone_found (user_stats a) = phone_found_total (overall a)"
    and "user_sum lusha_phone_found (user_stats a) = lusha_phone_found_total (overall a)"
    and "user_sum apollo_phone_found (user_stats a) = apollo_phone_found_total (overall a)"
    and "user_sum failed (user_stats a) = total_calls (overall a) - successful_calls (overall a)"
proof -
  have run: "user_loop records [] = Inr (user_stats a)"
    using res by (rule analyze_records_Inr(1))
  note ov = analyze_records_Inr(2-10) [OF res]
  show "user_sum total (user_stats a) = total_calls (overall a)"
    using user_loop_sum [OF count_record_total _ run]
    by (simp add: new_bucket_def user_sum_Nil ov count_if_length)
  show "user_sum success (user_stats a) = successful_calls (overall a)"
    using user_loop_sum [OF count_record_success _ run]
    by (simp add: new_bucket_def user_sum_Nil ov)
  show "user_sum user_bucket.apollo_calls (user_stats a) = apollo_calls (overall a)"
    using user_loop_sum [OF count_record_apollo_calls _ run]
    by (simp add: new_bucket_def user_sum_Nil ov)
  show "user_sum user_bucket.lusha_calls (user_stats a) = lusha_calls (overall a)"
    using user_loop_sum [OF count_record_lusha_calls _ run]
      count_if_split [of "\<lambda>r. get r ''enrichment_source'' PNone = PStr ''APOLLO''" records]
    by (simp add: new_bucket_def user_sum_Nil ov)
  show "user_sum user_bucket.phone_found (user_stats a) = phone_found_total (overall a)"
    using user_loop_sum [OF count_record_phone_found _ run]
    by (simp add: new_bucket_def user_sum_Nil ov)
  show "user_sum lusha_phone_found (user_stats a) = lusha_phone_found_total (overall a)"
    using user_loop_sum [OF count_record_lusha_phone_found _ run]
    by (simp add: new_bucket_def user_sum_Nil ov)
  show "user_sum apollo_phone_found (user_stats a) = apollo_phone_found_total (overall a)"
    using user_loop_sum [OF count_record_apollo_phone_found _ run]
    by (simp add: new_bucket_def user_sum_Nil ov)
  show "user_sum failed (user_stats a) = total_calls (overall a) - successful_calls (overall a)"
    using user_loop_sum [OF count_record_failed _ run]
      count_if_split [of "\<lambda>r. is_True (get r ''lusha_api_success'' PNone)" records]
    by (simp add: new_bucket_def user_sum_Nil ov)
qed

section \<open>Keys and lookups\<close>

lemma key_eq_refl: "key_eq a a"
  by (cases a) simp_all

lemma key_eq_sym: "key_eq a b \<Longrightarrow> key_eq b a"
  by (cases a; cases b) (simp_all split: if_splits)

lemma key_eq_trans: "key_eq a b \<Longrightarrow> key_eq b c \<Longrightarrow> key_eq a c"
  by (cases a; cases b; cases c) (simp_all split: if_splits)

lemma key_eq_PNone: "key_eq k PNone \<longleftrightarrow> k = PNone"
  by (cases k) simp_all

lemma key_eq_PStr: "key_eq k (PStr s) \<longleftrightarrow> k = PStr s"
  by (cases k) simp_all

lemma bucket_of_update_same:
  assumes uv: "key_eq u v"
  shows "bucket_of (update_bucket u g d) v
           = Some (g (case bucket_of d v of None \<Rightarrow> new_bucket | Some b \<Rightarrow> b))"
proof (induction d)
  case Nil
  show ?case using uv by simp
next
  case (Cons kb d)
  obtain k b where kb: "kb = (k, b)" by (cases kb)
  show ?case
  proof (cases "key_eq k u")
    case True
    then have "key_eq k v" using uv by (rule key_eq_trans)
    with True show ?thesis by (simp add: kb)
  next
    case False
    have "\<not> key_eq k v"
    proof
      assume "key_eq k v"
      then have "key_eq k u" using key_eq_sym [OF uv] by (rule key_eq_trans)
      with False show False by simp
    qed
    with False show ?thesis using Cons.IH by (simp add: kb)
  qed
qed

lemma bucket_of_update_other:
  assumes uv: "\<not> key_eq u v"
  shows "bucket_of (update_bucket u g d) v = bucket_of d v"
proof (induction d)
  case Nil
  show ?case using uv by simp
next
  case (Cons kb d)
  obtain k b where kb: "kb = (k, b)" by (cases kb)
  show ?case
  proof (cases "key_eq k u")
    case True
    have "\<not> key_eq k v"
    proof
      assume "key_eq k v"
      with key_eq_sym [OF True] have "key_eq u v" by (rule key_eq_trans)
      with uv show False by simp
    qed
    with True show ?thesis by (simp add: kb)
  next
    case False
    then show ?thesis using Cons.IH by (simp add: kb)
  qed
qed

lemma bucket_of_update_absent:
  "bucket_of (update_bucket u g d) v = None \<longleftrightarrow> bucket_of d v = None \<and> \<not> key_eq u v"
  by (cases "key_eq u v") (simp_all add: bucket_of_update_same bucket_of_update_other)

lemma bucket_of_user_loop_absent:
  "user_loop rs d = Inr d' \<Longrightarrow>
   bucket_of d' v = None \<longleftrightarrow>
     bucket_of d v = None \<and> (\<forall>r \<in> set rs. \<not> key_eq (get r ''user_name'' (PStr ''Unknown'')) v)"
proof (induction rs arbitrary: d)
  case Nil
  then show ?case by simp
next
  case (Cons r rs)
  let ?u = "get r ''user_name'' (PStr ''Unknown'')"
  from Cons.prems have run: "user_loop rs (update_bucket ?u (count_record r) d) = Inr d'"
    by (simp add: Let_def split: if_splits)
  have "bucket_of d' v = None \<longleftrightarrow>
     bucket_of (update_bucket ?u (count_record r) d) v = None
       \<and> (\<forall>r \<in> set rs. \<not> key_eq (get r ''user_name'' (PStr ''Unknown'')) v)"
    by (rule Cons.IH [OF run])
  then show ?case
    by (simp add: bucket_of_update_absent conj_ac)
qed

lemma bucket_of_mem: "bucket_of d v = Some b \<Longrightarrow> \<exists>k. (k, b) \<in> set d \<and> key_eq k v"
  by (induction d) (auto split: if_splits)

lemma counter_update_bucket:
  assumes step: "\<And>b. f (g b) = f b + c" and zero: "f new_bucket = 0"
  shows "counter f (update_bucket u g d) v = counter f d v + (if key_eq u v then c else 0)"
proof (cases "key_eq u v")
  case True
  then show ?thesis
    by (simp add: counter_def bucket_of_update_same step zero split: option.splits)
next
  case False
  then show ?thesis
    by (simp add: counter_def bucket_of_update_other)
qed

lemma counter_user_loop:
  assumes step: "\<And>r b. f (count_record r b) = f b + (if p r then 1 else 0)"
    and zero: "f new_bucket = 0"
  shows "user_loop rs d = Inr d' \<Longrightarrow>
         counter f d' v =
           counter f d v + count_if (\<lambda>r. key_eq (get r ''user_name'' (PStr ''Unknown'')) v \<and> p r) rs"
proof (induction rs arbitrary: d)
  case Nil
  then show ?case by (simp add: count_if_Nil)
next
  case (Cons r rs)
  let ?u = "get r ''user_name'' (PStr ''Unknown'')"
  from Cons.prems have run: "user_loop rs (update_bucket ?u (count_record r) d) = Inr d'"
    by (simp add: Let_def split: if_splits)
  have upd: "counter f (update_bucket ?u (count_record r) d) v
               = counter f d v + (if key_eq ?u v then (if p r then 1 else 0) else 0)"
    by (rule counter_update_bucket [OF step zero])
  show ?case
    using Cons.IH [OF run] upd by (simp add: count_if_Cons)
qed

text \<open>
  The counters of the bucket of \<open>v\<close> count the records of that user: all of them, those whose
  \<open>lusha_api_success\<close> is \<open>True\<close>, and every other one as failed.
\<close>

lemma user_counters_by_rule:
  assumes res: "analyze_records records = Inr a"
  shows "counter total (user_stats a) v
           = count_if (\<lambda>r. key_eq (get r ''user_name'' (PStr ''Unknown'')) v) records"
    and "counter success (user_stats a) v
           = count_if (\<lambda>r. key_eq (get r ''user_name'' (PStr ''Unknown'')) v
                          \<and> is_True (get r ''lusha_api_success'' PNone)) records"
    and "counter failed (user_stats a) v
           = count_if (\<lambda>r. key_eq (get r ''user_name'' (PStr ''Unknown'')) v
                          \<and> \<not> is_True (get r ''lusha_api_success'' PNone)) records"
proof -
  have run: "user_loop records [] = Inr (user_stats a)"
    using res by (rule analyze_records_Inr(1))
  show "counter total (user_stats a) v
           = count_if (\<lambda>r. key_eq (get r ''user_name'' (PStr ''Unknown'')) v) records"
    using counter_user_loop [OF count_record_total _ run, of v]
    by (simp add: new_bucket_def counter_def)
  show "counter success (user_stats a) v
           = count_if (\<lambda>r. key_eq (get r ''user_name'' (PStr ''Unknown'')) v
                          \<and> is_True (get r ''lusha_api_success'' PNone)) records"
    using counter_user_loop [OF count_record_success _ run, of v]
    by (simp add: new_bucket_def counter_def)
  show "counter failed (user_stats a) v
           = count_if (\<lambda>r. key_eq (get r ''user_name'' (PStr ''Unknown'')) v
                          \<and> \<not> is_True (get r ''lusha_api_success'' PNone)) records"
    using counter_user_loop [OF count_record_failed _ run, of v]
    by (simp add: new_bucket_def counter_def)
qed

section \<open>The bucket invariant\<close>

lemma bucket_ok_new: "bucket_ok new_bucket"
  by (simp add: bucket_ok_def new_bucket_def)

lemma bucket_ok_count_record: "bucket_ok b \<Longrightarrow> bucket_ok (count_record r b)"
  by (simp add: bucket_ok_def count_record_def Let_def)

lemma bucket_ok_update_bucket:
  "\<forall>kb \<in> set d. bucket_ok (snd kb) \<Longrightarrow> \<forall>kb \<in> set (update_bucket u (count_record r) d). bucket_ok (snd kb)"
proof (induction d)
  case Nil
  show ?case by (simp add: bucket_ok_new bucket_ok_count_record)
next
  case (Cons kb d)
  obtain k b where kb: "kb = (k, b)" by (cases kb)
  from Cons.prems have b: "bucket_ok b" and d: "\<forall>kb \<in> set d. bucket_ok (snd kb)"
    by (simp_all add: kb)
  show ?case
    using Cons.IH [OF d] b d by (simp add: kb bucket_ok_count_record)
qed

lemma bucket_ok_user_loop:
  "user_loop rs d = Inr d' \<Longrightarrow> \<forall>kb \<in> set d. bucket_ok (snd kb) \<Longrightarrow> \<forall>kb \<in> set d'. bucket_ok (snd kb)"
proof (induction rs arbitrary: d)
  case Nil
  then show ?case by simp
next
  case (Cons r rs)
  let ?u = "get r ''user_name'' (PStr ''Unknown'')"
  from Cons.prems(1) have run: "user_loop rs (update_bucket ?u (count_record r) d) = Inr d'"
    by (simp add: Let_def split: if_splits)
  show ?case
    by (rule Cons.IH [OF run bucket_ok_update_bucket [OF Cons.prems(2)]])
qed

section \<open>Sorting items with string names\<close>

lemma item_less_str: "m \<noteq> n \<Longrightarrow> item_less (PStr m, c) (PStr n, b) = Inr (m < n)"
  by (simp add: item_less_def)

lemma insert_item_tag:
  "n \<notin> fst ` set ys \<Longrightarrow>
   insert_item (PStr n, b) (map tag ys) = Inr (map tag (insort_key fst (n, b) ys))"
proof (induction ys)
  case Nil
  show ?case by (simp add: tag_def)
next
  case (Cons y ys)
  obtain m c where y: "y = (m, c)" by (cases y)
  from Cons.prems have ne: "m \<noteq> n" and rest: "n \<notin> fst ` set ys"
    by (auto simp add: y)
  show ?case
  proof (cases "m < n")
    case True
    then show ?thesis
      using Cons.IH [OF rest] ne by (simp add: y tag_def item_less_str)
  next
    case False
    with ne have "n \<le> m" by simp
    with False show ?thesis
      using ne by (simp add: y tag_def item_less_str)
  qed
qed

lemma sorted_items_tag:
  "distinct (map fst xs) \<Longrightarrow> sorted_items (map tag xs) = Inr (map tag (sort_key fst xs))"
proof (induction xs)
  case Nil
  show ?case by simp
next
  case (Cons x xs)
  obtain n b where x: "x = (n, b)" by (cases x)
  from Cons.prems have fresh: "n \<notin> fst ` set (sort_key fst xs)" and d: "distinct (map fst xs)"
    by (simp_all add: x)
  have tx: "tag x = (PStr n, b)" by (simp add: x tag_def)
  show ?case
    using Cons.IH [OF d] insert_item_tag [OF fresh, of b]
    by (simp add: tx) (simp add: x)
qed

lemma tag_zip: "map fst d = map PStr names \<Longrightarrow> map tag (zip names (map snd d)) = d"
proof (induction d arbitrary: names)
  case Nil
  then show ?case by simp
next
  case (Cons kb d)
  then obtain n ns where names: "names = n # ns" by (cases names) auto
  with Cons.prems have k: "fst kb = PStr n" and rest: "map fst d = map PStr ns" by simp_all
  show ?case using Cons.IH [OF rest] k by (simp add: names tag_def prod_eq_iff)
qed

section \<open>The claims\<close>

text \<open>
  Claim C1. The sum of each counter over all user buckets should equal the overall counter.
  Lemma \<open>user_sums\<close> proves it for \<open>total\<close>, \<open>success\<close>, \<open>lusha_calls\<close>, \<open>apollo_calls\<close>,
  \<open>phone_found\<close>, \<open>lusha_phone_found\<close> and \<open>apollo_phone_found\<close>. For \<open>failed\<close> the two
  paths of \<open>analyze_records\<close> disagree: the overall count takes the records whose
  \<open>lusha_api_success\<close> is \<open>False\<close>, the loop over the users takes every record whose
  \<open>lusha_api_success\<close> is not \<open>True\<close>. On the single record \<open>{}\<close> the buckets' \<open>failed\<close>
  sum to 1 while the overall \<open>failed_calls\<close> is 0.
\<close>

theorem failed_sum_exceeds_overall:
  "(case analyze_records [Map.empty] of
      Inl e \<Rightarrow> False
    | Inr a \<Rightarrow> user_sum failed (user_stats a) = 1 \<and> failed_calls (overall a) = 0)"
  by (simp add: eval_simps)

text \<open>
  Claim C2. A record should add to its user's \<open>failed\<close> counter only when its
  \<open>lusha_api_success\<close> is present and \<open>False\<close>, as the overall count does. The loop's
  \<open>else\<close> branch adds to it for every record that is not a success (lemma
  \<open>user_counters_by_rule\<close>): a record of alice without the field gives alice \<open>failed = 1\<close>,
  while the overall \<open>failed_calls\<close> stays 0.
\<close>

theorem absent_outcome_counts_as_user_failure:
  "analyze_records [[''user_name'' \<mapsto> PStr ''alice'']] =
     Inr \<lparr>overall =
            \<lparr>total_calls = 1, successful_calls = 0, failed_calls = 0, apollo_calls = 0,
             lusha_calls = 1, phone_found_total = 0, phone_not_found_total = 0,
             apollo_phone_found_total = 0, lusha_phone_found_total = 0\<rparr>,
          user_stats =
            [(PStr ''alice'',
              \<lparr>total = 1, success = 0, failed = 1, user_bucket.lusha_calls = 1,
               lusha_phone_found = 0, user_bucket.apollo_calls = 0, apollo_phone_found = 0,
               phone_found = 0\<rparr>)]\<rparr>"
  by (simp add: eval_simps)

text \<open>
  Claim C3. In every user bucket of a result of \<open>analyze_records\<close>,
  \<open>success + failed = total\<close> and \<open>lusha_calls + apollo_calls = total\<close>.
\<close>

theorem user_bucket_invariant:
  assumes "analyze_records records = Inr a" and "(k, b) \<in> set (user_stats a)"
  shows "success b + failed b = total b
       \<and> user_bucket.lusha_calls b + user_bucket.apollo_calls b = total b"
proof -
  have "user_loop records [] = Inr (user_stats a)"
    using assms(1) by (rule analyze_records_Inr(1))
  then have "\<forall>kb \<in> set (user_stats a). bucket_ok (snd kb)"
    by (rule bucket_ok_user_loop) simp
  with assms(2) have "bucket_ok b" by force
  then show ?thesis by (simp add: bucket_ok_def)
qed

theorem user_bucket_invariant_witness:
  "analyze_records scenario_B = Inr scenario_B_analysis
   \<and> (PStr ''bob'',
       \<lparr>total = 1, success = 0, failed = 1, user_bucket.lusha_calls = 0,
        lusha_phone_found = 0, user_bucket.apollo_calls = 1, apollo_phone_found = 0,
        phone_found = 0\<rparr>) \<in> set (user_stats scenario_B_analysis)
   \<and> (0::int) + 1 = 1 \<and> (0::int) + 1 = 1"
proof -
  let ?b = "\<lparr>total = 1, success = 0, failed = 1, user_bucket.lusha_calls = 0,
        lusha_phone_found = 0, user_bucket.apollo_calls = 1, apollo_phone_found = 0,
        phone_found = 0\<rparr>"
  have m: "(PStr ''bob'', ?b) \<in> set (user_stats scenario_B_analysis)"
    by (simp add: scenario_B_analysis_def)
  from user_bucket_invariant [OF scenario_B_eval m] scenario_B_eval m
  show ?thesis by simp
qed

text \<open>
  Claim C4. Overall, a record counts as successful iff its \<open>lusha_api_success\<close> is exactly
  \<open>True\<close> and as failed iff it is exactly \<open>False\<close>; so
  \<open>successful_calls + failed_calls \<le> total_calls\<close>, with equality iff every record has the
  field set to \<open>True\<close> or \<open>False\<close>.
\<close>

theorem success_failed_within_total:
  assumes "analyze_records records = Inr a"
  shows "successful_calls (overall a)
           = int (length (filter (\<lambda>r. r ''lusha_api_success'' = Some (PBool True)) records))
       \<and> failed_calls (overall a)
           = int (length (filter (\<lambda>r. r ''lusha_api_success'' = Some (PBool False)) records))
       \<and> successful_calls (overall a) + failed_calls (overall a) \<le> total_calls (overall a)
       \<and> (successful_calls (overall a) + failed_calls (overall a) = total_calls (overall a)
            \<longleftrightarrow> (\<forall>r \<in> set records. r ''lusha_api_success'' = Some (PBool True)
                                   \<or> r ''lusha_api_success'' = Some (PBool False)))"
proof -
  let ?p = "\<lambda>r::py_record. r ''lusha_api_success'' = Some (PBool True)"
  let ?q = "\<lambda>r::py_record. r ''lusha_api_success'' = Some (PBool False)"
  have s: "successful_calls (overall a) = count_if ?p records"
    using analyze_records_Inr(3) [OF assms] by (simp add: is_True_get)
  have f: "failed_calls (overall a) = count_if ?q records"
    using analyze_records_Inr(4) [OF assms] by (simp add: is_False_get)
  have t: "total_calls (overall a) = int (length records)"
    by (rule analyze_records_Inr(2) [OF assms])
  have le: "count_if ?p records + count_if ?q records \<le> int (length records)"
    by (rule count_if_disjoint_le) simp
  have eq: "count_if ?p records + count_if ?q records = int (length records)
              \<longleftrightarrow> (\<forall>r \<in> set records. ?p r \<or> ?q r)"
    by (rule count_if_disjoint_eq) simp
  show ?thesis
    using le eq by (simp add: s f t count_if_length)
qed

theorem success_failed_within_total_witness:
  "analyze_records scenario_B = Inr scenario_B_analysis
   \<and> successful_calls (overall scenario_B_analysis) = 1
   \<and> failed_calls (overall scenario_B_analysis) = 1
   \<and> total_calls (overall scenario_B_analysis) = 3
   \<and> int (length (filter (\<lambda>r. r ''lusha_api_success'' = Some (PBool True)) scenario_B)) = 1
   \<and> int (length (filter (\<lambda>r. r ''lusha_api_success'' = Some (PBool False)) scenario_B)) = 1
   \<and> \<not> (\<forall>r \<in> set scenario_B. r ''lusha_api_success'' = Some (PBool True)
                                 \<or> r ''lusha_api_success'' = Some (PBool False))"
  using success_failed_within_total [OF scenario_B_eval] scenario_B_eval
  by (simp add: scenario_B_analysis_def)

text \<open>
  Claim C5. Overall, \<open>apollo_calls + lusha_calls = total_calls\<close>: a record counts toward
  Apollo iff its \<open>enrichment_source\<close> is the string \<open>APOLLO\<close>, and toward Lusha otherwise,
  also when the field is absent.
\<close>

theorem provider_partition:
  assumes "analyze_records records = Inr a"
  shows "apollo_calls (overall a) + lusha_calls (overall a) = total_calls (overall a)
       \<and> apollo_calls (overall a)
           = int (length (filter (\<lambda>r. r ''enrichment_source'' = Some (PStr ''APOLLO'')) records))
       \<and> lusha_calls (overall a)
           = int (length (filter (\<lambda>r. r ''enrichment_source'' \<noteq> Some (PStr ''APOLLO'')) records))"
proof -
  let ?p = "\<lambda>r::py_record. r ''enrichment_source'' = Some (PStr ''APOLLO'')"
  have ap: "apollo_calls (overall a) = count_if ?p records"
    using analyze_records_Inr(5) [OF assms] by (simp add: get_eq_PStr)
  have lu: "lusha_calls (overall a) = total_calls (overall a) - apollo_calls (overall a)"
    by (rule analyze_records_Inr(6) [OF assms])
  have t: "total_calls (overall a) = int (length records)"
    by (rule analyze_records_Inr(2) [OF assms])
  have "count_if ?p records + count_if (\<lambda>r. \<not> ?p r) records = int (length records)"
    by (rule count_if_split)
  then show ?thesis
    by (simp add: ap lu t count_if_length)
qed

theorem provider_partition_witness:
  "analyze_records scenario_B = Inr scenario_B_analysis
   \<and> apollo_calls (overall scenario_B_analysis) + lusha_calls (overall scenario_B_analysis)
       = total_calls (overall scenario_B_analysis)
   \<and> int (length (filter (\<lambda>r. r ''enrichment_source'' = Some (PStr ''APOLLO'')) scenario_B)) = 1
   \<and> int (length (filter (\<lambda>r. r ''enrichment_source'' \<noteq> Some (PStr ''APOLLO'')) scenario_B)) = 2"
  using provider_partition [OF scenario_B_eval] scenario_B_eval
  by (simp add: scenario_B_analysis_def)

text \<open>
  Claim C6. On the three records of Scenario B, \<open>analyze_records\<close> returns the overall counts
  total 3, successful 1, failed 1, Apollo 1, Lusha 2, phone found 1, phone not found 1, and
  a \<open>user_stats\<close> with exactly the keys alice, bob and Unknown, each with total 1.
\<close>

theorem scenario_B_statistics:
  "(case analyze_records scenario_B of
      Inl err \<Rightarrow> False
    | Inr a \<Rightarrow>
        total_calls (overall a) = 3
        \<and> successful_calls (overall a) = 1
        \<and> failed_calls (overall a) = 1
        \<and> apollo_calls (overall a) = 1
        \<and> lusha_calls (overall a) = 2
        \<and> phone_found_total (overall a) = 1
        \<and> phone_not_found_total (overall a) = 1
        \<and> map fst (user_stats a) = [PStr ''alice'', PStr ''bob'', PStr ''Unknown'']
        \<and> map (\<lambda>item. total (snd item)) (user_stats a) = [1, 1, 1])"
  by (simp add: scenario_B_eval) (simp add: scenario_B_analysis_def)

text \<open>
  Claim C7, amended. For an analysis whose user names are all strings (and distinct, as the
  keys of a \<open>dict\<close> are), \<open>generate_csv\<close> writes the report with one user row per bucket,
  and the names of those rows are in strictly ascending lexicographic order. As stated, for every analysis, the claim fails: user names
  that are not all strings cannot be compared with each other.
\<close>

theorem user_rows_sorted_for_string_names:
  assumes keys: "map fst (user_stats a) = map PStr names" and dist: "distinct names"
  shows "\<exists>items sorted_names.
           generate_csv e a w =
             (Inr (''api_performance_report_'' @ timestamp e @ ''.csv''),
              w\<lparr>files := (files w)(''api_performance_report_'' @ timestamp e @ ''.csv'' \<mapsto>
                   overall_rows (overall a) @ user_header_rows @ map user_row items)\<rparr>)
         \<and> mset items = mset (user_stats a)
         \<and> map fst items = map PStr sorted_names
         \<and> sorted_wrt (<) sorted_names"
proof -
  let ?xs = "zip names (map snd (user_stats a))"
  let ?items = "map tag (sort_key fst ?xs)"
  let ?sn = "map fst (sort_key fst ?xs)"
  have len: "length names = length (user_stats a)"
    using arg_cong [OF keys, of length] by simp
  have d: "map tag ?xs = user_stats a" by (rule tag_zip [OF keys])
  have fx: "map fst ?xs = names" using len by simp
  have srt: "sorted_items (user_stats a) = Inr ?items"
    using sorted_items_tag [of ?xs] dist fx d by simp
  have gen: "generate_csv e a w =
             (Inr (''api_performance_report_'' @ timestamp e @ ''.csv''),
              w\<lparr>files := (files w)(''api_performance_report_'' @ timestamp e @ ''.csv'' \<mapsto>
                   overall_rows (overall a) @ user_header_rows @ map user_row ?items)\<rparr>)"
    by (simp add: generate_csv_def Let_def srt)
  have "mset ?items = image_mset tag (mset ?xs)" by simp
  also have "\<dots> = mset (map tag ?xs)" by simp
  finally have ms: "mset ?items = mset (user_stats a)" by (simp only: d)
  have keys': "map fst ?items = map PStr ?sn" by (simp add: tag_def comp_def)
  have "mset ?sn = mset (map fst ?xs)" by simp
  then have "distinct ?sn \<longleftrightarrow> distinct (map fst ?xs)" by (rule mset_eq_imp_distinct_iff)
  with dist fx have "distinct ?sn" by simp
  moreover have "sorted ?sn" by (rule sorted_sort_key)
  ultimately have strict: "sorted_wrt (<) ?sn" by (simp add: strict_sorted_iff)
  from gen ms keys' strict show ?thesis by blast
qed

theorem user_rows_sorted_for_string_names_witness:
  "map fst (user_stats scenario_B_analysis) = map PStr [''alice'', ''bob'', ''Unknown'']
   \<and> distinct [''alice'', ''bob'', ''Unknown'']
   \<and> (\<exists>items sorted_names.
           generate_csv example_env scenario_B_analysis empty_world =
             (Inr (''api_performance_report_'' @ timestamp example_env @ ''.csv''),
              empty_world\<lparr>files := (files empty_world)(''api_performance_report_'' @ timestamp example_env @ ''.csv'' \<mapsto>
                   overall_rows (overall scenario_B_analysis) @ user_header_rows @ map user_row items)\<rparr>)
         \<and> mset items = mset (user_stats scenario_B_analysis)
         \<and> map fst items = map PStr sorted_names
         \<and> sorted_wrt (<) sorted_names)"
proof -
  have k: "map fst (user_stats scenario_B_analysis) = map PStr [''alice'', ''bob'', ''Unknown'']"
    by (simp add: scenario_B_analysis_def)
  have d: "distinct [''alice'', ''bob'', ''Unknown'']" by simp
  from user_rows_sorted_for_string_names [OF k d, of example_env empty_world] k d
  show ?thesis by blast
qed

text \<open>
  Two documents, one with \<open>user_name\<close> null and one of alice: \<open>sorted\<close> compares \<open>None\<close> with
  a string, the \<open>TypeError\<close> leaves \<open>generate_csv\<close>, and the file written holds the rows up
  to the header of the user section and no user row.
\<close>

theorem mixed_names_raise_TypeError:
  "(case analyze_records [[''user_name'' \<mapsto> PNone], [''user_name'' \<mapsto> PStr ''alice'']] of
      Inl err \<Rightarrow> False
    | Inr a \<Rightarrow>
        map fst (user_stats a) = [PNone, PStr ''alice'']
        \<and> generate_csv example_env a empty_world =
            (Inl TypeError,
             empty_world\<lparr>files := [''api_performance_report_20260101_090000.csv'' \<mapsto>
                overall_rows (overall a) @ user_header_rows]\<rparr>))"
  by (simp add: eval_simps generate_csv_def item_less_def example_env_def empty_world_def)

text \<open>
  Claim C8. When the fetched list is empty, \<open>main\<close> returns without writing a file, printing
  or opening an SMTP connection: the world is unchanged.
\<close>

theorem main_empty_is_noop:
  assumes "connect_to_mongodb e w = (Some collection, w1)"
    and "fetch_last_24_hours_records collection = []"
  shows "main e w = (None, w)"
proof -
  from assms(1) have "w1 = w"
    by (simp add: connect_to_mongodb_def split: if_splits option.splits)
  with assms show ?thesis by (simp add: main_def)
qed

theorem main_empty_is_noop_witness:
  "connect_to_mongodb example_env empty_world = (Some [], empty_world)
   \<and> fetch_last_24_hours_records [] = []
   \<and> main example_env empty_world = (None, empty_world)"
proof -
  have c: "connect_to_mongodb example_env empty_world = (Some [], empty_world)"
    by (simp add: connect_to_mongodb_def example_env_def truthy_def)
  have f: "fetch_last_24_hours_records [] = []"
    by (simp add: fetch_last_24_hours_records_def)
  from main_empty_is_noop [OF c f] c f show ?thesis by simp
qed

text \<open>
  Claim C9. When \<open>SMTP_PASSWORD\<close>, \<open>DEFAULT_FROM_EMAIL\<close> or \<open>RECIPIENT_EMAIL\<close> is missing,
  \<open>send_email_with_csv\<close> fails (returns \<open>False\<close>) with the missing-configuration diagnostic
  and opens no SMTP connection; a missing recipient is one such case.
\<close>

theorem missing_email_config_fails_before_connecting:
  assumes "\<not> truthy (SMTP_PASSWORD e) \<or> \<not> truthy (DEFAULT_FROM_EMAIL e) \<or> \<not> truthy (RECIPIENT_EMAIL e)"
  shows "send_email_with_csv e csv_filename a w =
           (False,
            w\<lparr>stdout := stdout w @ [''Error: Missing email configuration in .env file'',
                                     ''Required: SMTP_PASSWORD, DEFAULT_FROM_EMAIL, RECIPIENT_EMAIL'']\<rparr>)
       \<and> smtp_connections (snd (send_email_with_csv e csv_filename a w)) = smtp_connections w
       \<and> delivered (snd (send_email_with_csv e csv_filename a w)) = delivered w"
  using assms by (auto simp add: send_email_with_csv_def print_def)

theorem missing_email_config_fails_before_connecting_witness:
  "\<not> truthy (RECIPIENT_EMAIL (example_env\<lparr>RECIPIENT_EMAIL := None\<rparr>))
   \<and> send_email_with_csv (example_env\<lparr>RECIPIENT_EMAIL := None\<rparr>)
         ''api_performance_report_20260101_090000.csv'' scenario_B_analysis empty_world =
       (False,
        empty_world\<lparr>stdout := [''Error: Missing email configuration in .env file'',
                               ''Required: SMTP_PASSWORD, DEFAULT_FROM_EMAIL, RECIPIENT_EMAIL'']\<rparr>)
   \<and> smtp_connections (snd (send_email_with_csv (example_env\<lparr>RECIPIENT_EMAIL := None\<rparr>)
         ''api_performance_report_20260101_090000.csv'' scenario_B_analysis empty_world)) = []"
proof -
  have h: "\<not> truthy (RECIPIENT_EMAIL (example_env\<lparr>RECIPIENT_EMAIL := None\<rparr>))"
    by (simp add: truthy_def)
  then have "\<not> truthy (SMTP_PASSWORD (example_env\<lparr>RECIPIENT_EMAIL := None\<rparr>))
     \<or> \<not> truthy (DEFAULT_FROM_EMAIL (example_env\<lparr>RECIPIENT_EMAIL := None\<rparr>))
     \<or> \<not> truthy (RECIPIENT_EMAIL (example_env\<lparr>RECIPIENT_EMAIL := None\<rparr>))"
    by simp
  from missing_email_config_fails_before_connecting [OF this,
      of "''api_performance_report_20260101_090000.csv''" scenario_B_analysis empty_world] h
  show ?thesis by (simp add: empty_world_def)
qed

text \<open>
  Claim C10. A record whose \<open>user_name\<close> is present and null is counted in the bucket whose key
  is \<open>None\<close> itself; the bucket \<open>Unknown\<close> counts only the records without the field (and
  those named \<open>Unknown\<close>).
\<close>

theorem null_user_name_is_its_own_key:
  assumes res: "analyze_records records = Inr a"
    and mem: "record \<in> set records"
    and null: "record ''user_name'' = Some PNone"
  shows "(\<exists>stats. (PNone, stats) \<in> set (user_stats a)
            \<and> bucket_of (user_stats a) PNone = Some stats
            \<and> total stats = int (length (filter (\<lambda>r. r ''user_name'' = Some PNone) records)))
       \<and> counter total (user_stats a) (PStr ''Unknown'')
           = int (length (filter (\<lambda>r. r ''user_name'' = None
                                     \<or> r ''user_name'' = Some (PStr ''Unknown'')) records))"
proof -
  have run: "user_loop records [] = Inr (user_stats a)"
    using res by (rule analyze_records_Inr(1))
  have zero: "total new_bucket = 0" by (simp add: new_bucket_def)
  have cnt: "counter total (user_stats a) v
      = count_if (\<lambda>r. key_eq (get r ''user_name'' (PStr ''Unknown'')) v) records" for v
    using counter_user_loop [OF count_record_total zero run, of v]
    by (simp add: counter_def)
  have "key_eq (get record ''user_name'' (PStr ''Unknown'')) PNone"
    using null by (simp add: get_def)
  with mem have "bucket_of (user_stats a) PNone \<noteq> None"
    using bucket_of_user_loop_absent [OF run, of PNone] by blast
  then obtain stats where st: "bucket_of (user_stats a) PNone = Some stats" by auto
  from bucket_of_mem [OF st] have in_dict: "(PNone, stats) \<in> set (user_stats a)"
    by (auto simp add: key_eq_PNone)
  have "total stats = counter total (user_stats a) PNone"
    by (simp add: counter_def st)
  also have "\<dots> = int (length (filter (\<lambda>r. r ''user_name'' = Some PNone) records))"
    by (simp add: cnt key_eq_PNone user_name_is_None count_if_length)
  finally have tot: "total stats = int (length (filter (\<lambda>r. r ''user_name'' = Some PNone) records))" .
  have unk: "counter total (user_stats a) (PStr ''Unknown'')
           = int (length (filter (\<lambda>r. r ''user_name'' = None
                                     \<or> r ''user_name'' = Some (PStr ''Unknown'')) records))"
    by (simp add: cnt key_eq_PStr user_name_is_Unknown count_if_length)
  from in_dict st tot unk show ?thesis by blast
qed

theorem null_user_name_is_its_own_key_witness:
  "analyze_records [[''user_name'' \<mapsto> PNone]] =
     Inr \<lparr>overall =
            \<lparr>total_calls = 1, successful_calls = 0, failed_calls = 0, apollo_calls = 0,
             lusha_calls = 1, phone_found_total = 0, phone_not_found_total = 0,
             apollo_phone_found_total = 0, lusha_phone_found_total = 0\<rparr>,
          user_stats =
            [(PNone,
              \<lparr>total = 1, success = 0, failed = 1, user_bucket.lusha_calls = 1,
               lusha_phone_found = 0, user_bucket.apollo_calls = 0, apollo_phone_found = 0,
               phone_found = 0\<rparr>)]\<rparr>
   \<and> [''user_name'' \<mapsto> PNone] \<in> set [[''user_name'' \<mapsto> PNone]]
   \<and> [''user_name'' \<mapsto> PNone] ''user_name'' = Some PNone
   \<and> counter total
        [(PNone,
          \<lparr>total = 1, success = 0, failed = 1, user_bucket.lusha_calls = 1,
           lusha_phone_found = 0, user_bucket.apollo_calls = 0, apollo_phone_found = 0,
           phone_found = 0\<rparr>)] (PStr ''Unknown'') = 0"
proof -
  let ?r = "[''user_name'' \<mapsto> PNone] :: py_record"
  let ?a = "\<lparr>overall =
            \<lparr>total_calls = 1, successful_calls = 0, failed_calls = 0, apollo_calls = 0,
             lusha_calls = 1, phone_found_total = 0, phone_not_found_total = 0,
             apollo_phone_found_total = 0, lusha_phone_found_total = 0\<rparr>,
          user_stats =
            [(PNone,
              \<lparr>total = 1, success = 0, failed = 1, user_bucket.lusha_calls = 1,
               lusha_phone_found = 0, user_bucket.apollo_calls = 0, apollo_phone_found = 0,
               phone_found = 0\<rparr>)]\<rparr>"
  have e: "analyze_records [?r] = Inr ?a" by (simp add: eval_simps)
  have m: "?r \<in> set [?r]" by simp
  have n: "?r ''user_name'' = Some PNone" by simp
  from null_user_name_is_its_own_key [OF e m n] e m n
  show ?thesis by simp
qed

end
